theory Spec2Isabelle
  imports Main "HOL-Library.Word" "HOL-Library.Char_ord"
begin

unbundle bit_operations_syntax

section \<open>Dungeon pathfinder: the data model of solver.cpp\<close>

text \<open>
  The dungeon is a \<^verbatim>\<open>vector<string>\<close>: a list of rows, each a list of 8-bit characters.
  Characters are compared by their code; every letter the solver compares against lies
  below 128, so the signedness of the C++ \<^verbatim>\<open>char\<close> does not change any comparison.
\<close>

type_synonym dungeon = "string list"

text \<open>
  Modelled from the spec: \<^verbatim>\<open>Cell\<close> is declared in cell.h, which is not part of the
  sources at hand. The spec describes it as a (row, column) pair of integers with
  structural equality; solver.cpp reads its fields as \<^verbatim>\<open>r\<close> and \<^verbatim>\<open>c\<close>.
  Coordinates stay between -1 and the size of the grid, so they are unbounded integers here.
\<close>

record Cell =
  r :: int
  c :: int

text \<open>
  Modelled from the spec: \<^verbatim>\<open>DIRECTIONS\<close> and \<^verbatim>\<open>NUM_DIRECTIONS\<close> are declared in cell.h as
  well. The spec fixes the four moves up, down, left and right, each a (row offset,
  column offset) pair, in a fixed order.
\<close>

definition DIRECTIONS :: "(int \<times> int) list" where
  "DIRECTIONS = [(-1, 0), (1, 0), (0, -1), (0, 1)]"

text \<open>The key mask is a C++ \<^verbatim>\<open>int\<close>: a 32-bit word, read as signed by the right shift.\<close>

type_synonym keymask = "32 word"

record KeyState =
  row :: int
  col :: int
  keyMask :: keymask

section \<open>Grid access\<close>

text \<open>
  \<^verbatim>\<open>findPosition\<close>: the row-major scan for a character. The inner loop over one row
  returns the first column holding the target, the outer loop the first row that has one.
  The sentinel is \<^verbatim>\<open>Cell(-1, -1)\<close>.
\<close>

fun findInRow :: "string \<Rightarrow> char \<Rightarrow> nat \<Rightarrow> nat option" where
  "findInRow [] target k = None"
| "findInRow (x # xs) target k = (if x = target then Some k else findInRow xs target (Suc k))"

fun findFromRow :: "dungeon \<Rightarrow> char \<Rightarrow> nat \<Rightarrow> Cell" where
  "findFromRow [] target k = \<lparr>r = -1, c = -1\<rparr>"
| "findFromRow (line # rest) target k =
     (case findInRow line target 0 of
        Some j \<Rightarrow> \<lparr>r = int k, c = int j\<rparr>
      | None \<Rightarrow> findFromRow rest target (Suc k))"

definition findPosition :: "dungeon \<Rightarrow> char \<Rightarrow> Cell" where
  "findPosition dungeon target = findFromRow dungeon target 0"

text \<open>
  \<^verbatim>\<open>dungeon[row][col]\<close> on a \<^verbatim>\<open>const vector<string>&\<close>. Every caller has checked
  \<open>0 \<le> row < dungeon.size()\<close> and \<open>0 \<le> col < dungeon[0].size()\<close> before. On a rectangular
  grid the read is in range. On a jagged grid the column can lie beyond the end of its
  own row: reading position \<open>size()\<close> of a const string yields the null character, and
  reading further is undefined behaviour, which is the value \<open>None\<close> here.
\<close>

definition cellAt :: "dungeon \<Rightarrow> int \<Rightarrow> int \<Rightarrow> char option" where
  "cellAt dungeon i j =
     (if i < 0 \<or> int (length dungeon) \<le> i \<or> j < 0 then None
      else let line = dungeon ! nat i in
        if nat j < length line then Some (line ! nat j)
        else if nat j = length line then Some (CHR 0x00)
        else None)"

text \<open>
  The bounds test shared by \<^verbatim>\<open>isPassable\<close> and \<^verbatim>\<open>isValidPosition\<close>. The width is the one
  of row 0; on the empty grid the row test has already failed, so \<open>dungeon[0]\<close> is not read.
\<close>

definition outOfBounds :: "dungeon \<Rightarrow> int \<Rightarrow> int \<Rightarrow> bool" where
  "outOfBounds dungeon i j =
     (i < 0 \<or> int (length dungeon) \<le> i \<or> j < 0 \<or>
      (case dungeon of [] \<Rightarrow> True | line0 # _ \<Rightarrow> int (length line0) \<le> j))"

section \<open>Traversability rules\<close>

text \<open>\<^verbatim>\<open>isPassable\<close>: openness for the plain search. \<open>None\<close> is the undefined read of \<open>cellAt\<close>.\<close>

definition isPassable :: "dungeon \<Rightarrow> int \<Rightarrow> int \<Rightarrow> bool option" where
  "isPassable dungeon i j =
     (if outOfBounds dungeon i j then Some False
      else case cellAt dungeon i j of
        None \<Rightarrow> None
      | Some cell \<Rightarrow>
          if cell = CHR ''#'' then Some False
          else if CHR ''A'' \<le> cell \<and> cell \<le> CHR ''F'' \<and> cell \<noteq> CHR ''E'' then Some False
          else Some True)"

text \<open>\<^verbatim>\<open>isValidPosition\<close>: in bounds and not a wall, for the key-aware search.\<close>

definition isValidPosition :: "dungeon \<Rightarrow> int \<Rightarrow> int \<Rightarrow> bool option" where
  "isValidPosition dungeon i j =
     (if outOfBounds dungeon i j then Some False
      else case cellAt dungeon i j of
        None \<Rightarrow> None
      | Some cell \<Rightarrow> Some (cell \<noteq> CHR ''#''))"

text \<open>
  \<^verbatim>\<open>canPassDoor\<close>: \<open>requiredKey = door - 'A' + 'a'\<close>, \<open>keyBit = requiredKey - 'a'\<close>, and the
  result is \<open>(keyMask >> keyBit) & 1\<close> converted to \<^verbatim>\<open>bool\<close>. The right shift of a signed
  \<^verbatim>\<open>int\<close> is arithmetic.
\<close>

definition canPassDoor :: "char \<Rightarrow> keymask \<Rightarrow> bool" where
  "canPassDoor door km =
     (if door < CHR ''A'' \<or> CHR ''F'' < door then True
      else let requiredKey = (of_char door :: nat) - of_char (CHR ''A'') + of_char (CHR ''a'');
               keyBit = requiredKey - of_char (CHR ''a'')
           in (signed_drop_bit keyBit km AND 1) \<noteq> 0)"

text \<open>\<^verbatim>\<open>collectKey\<close>: \<open>keyBit = key - 'a'\<close>, result \<open>keyMask | (1 << keyBit)\<close>.\<close>

definition collectKey :: "char \<Rightarrow> keymask \<Rightarrow> keymask" where
  "collectKey key km =
     (if key < CHR ''a'' \<or> CHR ''f'' < key then km
      else let keyBit = (of_char key :: nat) - of_char (CHR ''a'')
           in km OR push_bit keyBit 1)"

section \<open>Path reconstruction\<close>

text \<open>
  \<^verbatim>\<open>reconstructPath\<close>: the walk back along the parent pointers. Each round appends the
  current cell, looks its parent up and returns the empty vector when there is none.
  On a cyclic parent map that avoids the start the C++ loop never exits: the function
  is partial, and \<open>None\<close> is the walk that does not return.
\<close>

partial_function (option) reconstructLoop ::
  "(Cell \<rightharpoonup> Cell) \<Rightarrow> Cell \<Rightarrow> Cell \<Rightarrow> Cell list \<Rightarrow> Cell list option" where
  "reconstructLoop parents start current path =
     (if r current = r start \<and> c current = c start then Some (rev (path @ [start]))
      else case parents current of
        None \<Rightarrow> Some []
      | Some p \<Rightarrow> reconstructLoop parents start p (path @ [current]))"

declare reconstructLoop.simps [code]

definition reconstructPath :: "(Cell \<rightharpoonup> Cell) \<Rightarrow> Cell \<Rightarrow> Cell \<Rightarrow> Cell list option" where
  "reconstructPath parents start goal = reconstructLoop parents start goal []"

text \<open>\<^verbatim>\<open>reconstructKeyPath\<close>: the same walk over key states, keeping only the coordinates.\<close>

partial_function (option) reconstructKeyLoop ::
  "(KeyState \<rightharpoonup> KeyState) \<Rightarrow> KeyState \<Rightarrow> KeyState \<Rightarrow> Cell list \<Rightarrow> Cell list option" where
  "reconstructKeyLoop parents start current path =
     (if row current = row start \<and> col current = col start \<and> keyMask current = keyMask start
      then Some (rev (path @ [\<lparr>r = row start, c = col start\<rparr>]))
      else case parents current of
        None \<Rightarrow> Some []
      | Some p \<Rightarrow>
          reconstructKeyLoop parents start p (path @ [\<lparr>r = row current, c = col current\<rparr>]))"

declare reconstructKeyLoop.simps [code]

definition reconstructKeyPath ::
  "(KeyState \<rightharpoonup> KeyState) \<Rightarrow> KeyState \<Rightarrow> KeyState \<Rightarrow> Cell list option" where
  "reconstructKeyPath parents start goal = reconstructKeyLoop parents start goal []"

section \<open>The plain search\<close>

text \<open>
  \<^verbatim>\<open>getNeighbors\<close>: the passable cells among the four neighbours, in the order of
  \<open>DIRECTIONS\<close>. An undefined read in \<^verbatim>\<open>isPassable\<close> leaves the whole call undefined.
\<close>

fun getNeighborsFrom :: "dungeon \<Rightarrow> Cell \<Rightarrow> (int \<times> int) list \<Rightarrow> Cell list option" where
  "getNeighborsFrom dungeon current [] = Some []"
| "getNeighborsFrom dungeon current (d # ds) =
     (let newRow = r current + fst d; newCol = c current + snd d in
      case isPassable dungeon newRow newCol of
        None \<Rightarrow> None
      | Some ok \<Rightarrow>
          (case getNeighborsFrom dungeon current ds of
             None \<Rightarrow> None
           | Some neighbors \<Rightarrow>
               Some (if ok then \<lparr>r = newRow, c = newCol\<rparr> # neighbors else neighbors)))"

definition getNeighbors :: "dungeon \<Rightarrow> Cell \<Rightarrow> Cell list option" where
  "getNeighbors dungeon current = getNeighborsFrom dungeon current DIRECTIONS"

text \<open>
  The state of the search: the queue, the visited set and the parent map. The inner
  loop of \<^verbatim>\<open>bfsPath\<close> tests each neighbour again with \<^verbatim>\<open>isPassable\<close> and, when it is
  new, pushes it, marks it and records the dequeued cell as its parent.
\<close>

type_synonym plainSearch = "Cell list \<times> Cell set \<times> (Cell \<rightharpoonup> Cell)"

fun visitNeighbors :: "dungeon \<Rightarrow> Cell \<Rightarrow> Cell list \<Rightarrow> plainSearch \<Rightarrow> plainSearch option" where
  "visitNeighbors dungeon current [] st = Some st"
| "visitNeighbors dungeon current (neighbor # rest) (bfsQueue, visited, parents) =
     (case isPassable dungeon (r neighbor) (c neighbor) of
        None \<Rightarrow> None
      | Some ok \<Rightarrow>
          visitNeighbors dungeon current rest
            (if ok \<and> neighbor \<notin> visited
             then (bfsQueue @ [neighbor], insert neighbor visited, parents(neighbor \<mapsto> current))
             else (bfsQueue, visited, parents)))"

text \<open>
  The main loop ends on every grid: a round either marks a new cell inside the grid, of
  which there are finitely many, or leaves the visited set alone and shortens the queue.
\<close>

definition inGrid :: "dungeon \<Rightarrow> Cell set" where
  "inGrid dungeon = {cell. \<not> outOfBounds dungeon (r cell) (c cell)}"

lemma finite_inGrid: "finite (inGrid dungeon)"
proof -
  let ?mk = "\<lambda>(i, j). \<lparr>r = i, c = j\<rparr>"
  let ?dom = "{0..<int (length dungeon)} \<times> {0..<int (length (hd dungeon))}"
  have "inGrid dungeon \<subseteq> ?mk ` ?dom"
  proof
    fix x assume "x \<in> inGrid dungeon"
    then have "(r x, c x) \<in> ?dom"
      by (auto simp: inGrid_def outOfBounds_def split: list.splits)
    moreover have "x = ?mk (r x, c x)" by simp
    ultimately show "x \<in> ?mk ` ?dom" by (rule rev_image_eqI)
  qed
  then show ?thesis by (rule finite_subset) simp
qed

lemma isPassable_inGrid: "isPassable dungeon (r x) (c x) = Some True \<Longrightarrow> x \<in> inGrid dungeon"
  by (auto simp: isPassable_def inGrid_def split: if_splits)

lemma visitNeighbors_grows:
  "visitNeighbors dungeon current ns (q, v, p) = Some (q', v', p') \<Longrightarrow>
     v \<subseteq> v' \<and> v' - v \<subseteq> inGrid dungeon \<and> (v' = v \<longrightarrow> q' = q)"
proof (induction ns arbitrary: q v p)
  case Nil
  then show ?case by simp
next
  case (Cons n ns)
  from Cons.prems obtain ok where ok: "isPassable dungeon (r n) (c n) = Some ok"
    by (auto split: option.splits)
  show ?case
  proof (cases "ok \<and> n \<notin> v")
    case True
    with Cons.prems ok
    have "visitNeighbors dungeon current ns (q @ [n], insert n v, p(n \<mapsto> current)) = Some (q', v', p')"
      by simp
    from Cons.IH [OF this]
    have "insert n v \<subseteq> v'" "v' - insert n v \<subseteq> inGrid dungeon" by simp_all
    moreover from True ok have "n \<in> inGrid dungeon" by (simp add: isPassable_inGrid)
    ultimately show ?thesis using True by auto
  next
    case False
    with Cons.prems ok
    have "visitNeighbors dungeon current ns (q, v, p) = Some (q', v', p')"
      by auto
    from Cons.IH [OF this] show ?thesis .
  qed
qed

lemma search_measure:
  assumes "finite G" "v \<subseteq> v'" "v' - v \<subseteq> G" "v' = v \<longrightarrow> length q' < n"
  shows "card (G - v') < card (G - v) \<or> card (G - v') = card (G - v) \<and> length q' < n"
proof (cases "v' = v")
  case True
  with assms show ?thesis by simp
next
  case False
  with assms obtain x where "x \<in> v'" "x \<notin> v" "x \<in> G" by blast
  with assms have "G - v' \<subset> G - v" by blast
  with assms have "card (G - v') < card (G - v)" by (intro psubset_card_mono) simp_all
  then show ?thesis ..
qed

function bfsLoop ::
  "dungeon \<Rightarrow> Cell \<Rightarrow> Cell \<Rightarrow> Cell list \<Rightarrow> Cell set \<Rightarrow> (Cell \<rightharpoonup> Cell) \<Rightarrow> Cell list option" where
  "bfsLoop dungeon start exit bfsQueue visited parents =
     (case bfsQueue of
        [] \<Rightarrow> Some []
      | current # rest \<Rightarrow>
          if current = exit then reconstructPath parents start current
          else (case getNeighbors dungeon current of
                  None \<Rightarrow> None
                | Some neighbors \<Rightarrow>
                    (case visitNeighbors dungeon current neighbors (rest, visited, parents) of
                       None \<Rightarrow> None
                     | Some (bfsQueue', visited', parents') \<Rightarrow>
                         bfsLoop dungeon start exit bfsQueue' visited' parents')))"
  by pat_completeness auto
termination
proof (relation "measures
    [\<lambda>(dungeon, start, exit, bfsQueue, visited, parents). card (inGrid dungeon - visited),
     \<lambda>(dungeon, start, exit, bfsQueue, visited, parents). length bfsQueue]", goal_cases)
  case 1
  then show ?case by simp
next
  case (2 dungeon start exit bfsQueue visited parents current rest neighbors st q' rest' v' p')
  then have "visitNeighbors dungeon current neighbors (rest, visited, parents) = Some (q', v', p')"
    by simp
  from visitNeighbors_grows [OF this]
  have "visited \<subseteq> v'" "v' - visited \<subseteq> inGrid dungeon"
    "v' = visited \<longrightarrow> length q' < length bfsQueue"
    using 2 by auto
  from search_measure [OF finite_inGrid this] show ?case by auto
qed

text \<open>
  \<^verbatim>\<open>bfsPath\<close>: locate start and exit, return the empty path when either is missing,
  otherwise search from the start. The progress line written to \<^verbatim>\<open>cout\<close> is not modelled.
\<close>

definition bfsPath :: "dungeon \<Rightarrow> Cell list option" where
  "bfsPath dungeon =
     (let start = findPosition dungeon (CHR ''S'');
          exit = findPosition dungeon (CHR ''E'')
      in if r start = -1 \<or> r exit = -1 then Some []
         else bfsLoop dungeon start exit [start] {start} Map.empty)"

section \<open>The key-aware search\<close>

text \<open>
  The goal test of \<^verbatim>\<open>bfsPathKeys\<close>, as the source has it:
  \<^verbatim>\<open>current.row == 5/*exit.r*/ && current.col == 8/*exit.c*/\<close>. The located exit is in
  scope but commented out; the test compares with the literal cell (5, 8).
\<close>

definition atGoal :: "Cell \<Rightarrow> KeyState \<Rightarrow> bool" where
  "atGoal exit current = (row current = 5 \<and> col current = 8)"

text \<open>
  The edge check on the neighbour's character: inside \<open>'A'..'F'\<close>, and neither \<open>'S'\<close> nor
  \<open>'E'\<close>, the move is skipped unless \<^verbatim>\<open>canPassDoor\<close> allows it.
\<close>

definition doorBlocks :: "char \<Rightarrow> keymask \<Rightarrow> bool" where
  "doorBlocks cellChar km =
     (CHR ''A'' \<le> cellChar \<and> cellChar \<le> CHR ''F'' \<and> cellChar \<noteq> CHR ''S'' \<and> cellChar \<noteq> CHR ''E''
      \<and> \<not> canPassDoor cellChar km)"

text \<open>The new key mask: \<^verbatim>\<open>collectKey\<close> on a character in \<open>'a'..'f'\<close>, the old mask otherwise.\<close>

definition pickUp :: "char \<Rightarrow> keymask \<Rightarrow> keymask" where
  "pickUp cellChar km =
     (if CHR ''a'' \<le> cellChar \<and> cellChar \<le> CHR ''f'' then collectKey cellChar km else km)"

text \<open>
  One direction of the inner loop, up to the construction of \<^verbatim>\<open>newState\<close>: the move is
  skipped (\<^verbatim>\<open>continue\<close>) at an invalid position or a closed door, and otherwise leads to the
  neighbour with the updated key mask.
\<close>

datatype transition = UndefinedRead | NoMove | MoveTo KeyState

definition successor :: "dungeon \<Rightarrow> KeyState \<Rightarrow> int \<times> int \<Rightarrow> transition" where
  "successor dungeon current d =
     (let newRow = row current + fst d; newCol = col current + snd d in
      case isValidPosition dungeon newRow newCol of
        None \<Rightarrow> UndefinedRead
      | Some False \<Rightarrow> NoMove
      | Some True \<Rightarrow>
          (case cellAt dungeon newRow newCol of
             None \<Rightarrow> UndefinedRead
           | Some cellChar \<Rightarrow>
               if doorBlocks cellChar (keyMask current) then NoMove
               else MoveTo \<lparr>row = newRow, col = newCol,
                             keyMask = pickUp cellChar (keyMask current)\<rparr>))"

type_synonym keySearch = "KeyState list \<times> KeyState set \<times> (KeyState \<rightharpoonup> KeyState)"

text \<open>The inner loop over the directions: a state not yet visited is pushed, marked and linked.\<close>

fun exploreDirections ::
  "dungeon \<Rightarrow> KeyState \<Rightarrow> (int \<times> int) list \<Rightarrow> keySearch \<Rightarrow> keySearch option" where
  "exploreDirections dungeon current [] st = Some st"
| "exploreDirections dungeon current (d # ds) (bfsQueue, visited, parents) =
     (case successor dungeon current d of
        UndefinedRead \<Rightarrow> None
      | NoMove \<Rightarrow> exploreDirections dungeon current ds (bfsQueue, visited, parents)
      | MoveTo newState \<Rightarrow>
          exploreDirections dungeon current ds
            (if newState \<notin> visited
             then (bfsQueue @ [newState], insert newState visited, parents(newState \<mapsto> current))
             else (bfsQueue, visited, parents)))"

text \<open>
  Termination as for the plain search: the states with a position inside the grid are
  finitely many, since a key mask is a 32-bit word.
\<close>

definition statesInGrid :: "dungeon \<Rightarrow> KeyState set" where
  "statesInGrid dungeon = {s. \<not> outOfBounds dungeon (row s) (col s)}"

lemma finite_statesInGrid: "finite (statesInGrid dungeon)"
proof -
  let ?mk = "\<lambda>(i, j, k). \<lparr>row = i, col = j, keyMask = k\<rparr>"
  let ?dom = "{0..<int (length dungeon)} \<times> {0..<int (length (hd dungeon))} \<times> (UNIV :: keymask set)"
  have "statesInGrid dungeon \<subseteq> ?mk ` ?dom"
  proof
    fix s assume "s \<in> statesInGrid dungeon"
    then have "(row s, col s, keyMask s) \<in> ?dom"
      by (auto simp: statesInGrid_def outOfBounds_def split: list.splits)
    moreover have "s = ?mk (row s, col s, keyMask s)" by simp
    ultimately show "s \<in> ?mk ` ?dom" by (rule rev_image_eqI)
  qed
  then show ?thesis by (rule finite_subset) simp
qed

lemma successor_inGrid: "successor dungeon current d = MoveTo s \<Longrightarrow> s \<in> statesInGrid dungeon"
  by (auto simp: successor_def Let_def isValidPosition_def statesInGrid_def
      split: option.splits bool.splits if_splits)

lemma exploreDirections_grows:
  "exploreDirections dungeon current ds (q, v, p) = Some (q', v', p') \<Longrightarrow>
     v \<subseteq> v' \<and> v' - v \<subseteq> statesInGrid dungeon \<and> (v' = v \<longrightarrow> q' = q)"
proof (induction ds arbitrary: q v p)
  case Nil
  then show ?case by simp
next
  case (Cons d ds)
  show ?case
  proof (cases "successor dungeon current d")
    case UndefinedRead
    with Cons.prems show ?thesis by simp
  next
    case NoMove
    with Cons.prems have "exploreDirections dungeon current ds (q, v, p) = Some (q', v', p')"
      by simp
    from Cons.IH [OF this] show ?thesis .
  next
    case (MoveTo s)
    show ?thesis
    proof (cases "s \<in> v")
      case True
      with Cons.prems MoveTo
      have "exploreDirections dungeon current ds (q, v, p) = Some (q', v', p')" by simp
      from Cons.IH [OF this] show ?thesis .
    next
      case False
      with Cons.prems MoveTo
      have "exploreDirections dungeon current ds (q @ [s], insert s v, p(s \<mapsto> current))
              = Some (q', v', p')" by simp
      from Cons.IH [OF this]
      have "insert s v \<subseteq> v'" "v' - insert s v \<subseteq> statesInGrid dungeon" by simp_all
      moreover from MoveTo have "s \<in> statesInGrid dungeon" by (rule successor_inGrid)
      ultimately show ?thesis using False by auto
    qed
  qed
qed

function bfsKeysLoop ::
  "dungeon \<Rightarrow> KeyState \<Rightarrow> Cell \<Rightarrow> KeyState list \<Rightarrow> KeyState set \<Rightarrow> (KeyState \<rightharpoonup> KeyState)
     \<Rightarrow> Cell list option" where
  "bfsKeysLoop dungeon startState exit bfsQueue visited parents =
     (case bfsQueue of
        [] \<Rightarrow> Some []
      | current # rest \<Rightarrow>
          if atGoal exit current then reconstructKeyPath parents startState current
          else (case exploreDirections dungeon current DIRECTIONS (rest, visited, parents) of
                  None \<Rightarrow> None
                | Some (bfsQueue', visited', parents') \<Rightarrow>
                    bfsKeysLoop dungeon startState exit bfsQueue' visited' parents'))"
  by pat_completeness auto
termination
proof (relation "measures
    [\<lambda>(dungeon, startState, exit, bfsQueue, visited, parents). card (statesInGrid dungeon - visited),
     \<lambda>(dungeon, startState, exit, bfsQueue, visited, parents). length bfsQueue]", goal_cases)
  case 1
  then show ?case by simp
next
  case (2 dungeon startState exit bfsQueue visited parents current rest st q' rest' v' p')
  then have "exploreDirections dungeon current DIRECTIONS (rest, visited, parents) = Some (q', v', p')"
    by simp
  from exploreDirections_grows [OF this]
  have "visited \<subseteq> v'" "v' - visited \<subseteq> statesInGrid dungeon"
    "v' = visited \<longrightarrow> length q' < length bfsQueue"
    using 2 by auto
  from search_measure [OF finite_statesInGrid this] show ?case by auto
qed

text \<open>
  \<^verbatim>\<open>bfsPathKeys\<close>: the same entry as \<^verbatim>\<open>bfsPath\<close>, searching from the start with no keys.
  The line written to \<^verbatim>\<open>cout\<close> on success is not modelled.
\<close>

definition bfsPathKeys :: "dungeon \<Rightarrow> Cell list option" where
  "bfsPathKeys dungeon =
     (let start = findPosition dungeon (CHR ''S'');
          exit = findPosition dungeon (CHR ''E'')
      in if r start = -1 \<or> r exit = -1 then Some []
         else let startState = \<lparr>row = r start, col = c start, keyMask = 0\<rparr>
              in bfsKeysLoop dungeon startState exit [startState] {startState} Map.empty)"

text \<open>
  A walk of the key-aware search: every state but the first is the \<open>successor\<close> of the
  state before it along one of the four directions.
\<close>

fun walk :: "dungeon \<Rightarrow> KeyState list \<Rightarrow> bool" where
  "walk dungeon [] = True"
| "walk dungeon [s] = True"
| "walk dungeon (s # t # rest) =
     ((\<exists>d \<in> set DIRECTIONS. successor dungeon s d = MoveTo t) \<and> walk dungeon (t # rest))"

section \<open>Characters and bits\<close>

text \<open>The two letter ranges the solver tests, as explicit sets of letters.\<close>

lemma keyBit_bound:
  "\<not> (key < CHR ''a'' \<or> CHR ''f'' < key) \<Longrightarrow> (of_char key :: nat) - of_char (CHR ''a'') \<le> 5"
  by (simp add: less_char_def not_less) arith

lemma char_range_af:
  "(CHR ''a'' \<le> key \<and> key \<le> CHR ''f'') =
     (key \<in> {CHR ''a'', CHR ''b'', CHR ''c'', CHR ''d'', CHR ''e'', CHR ''f''})"
proof
  assume "CHR ''a'' \<le> key \<and> key \<le> CHR ''f''"
  then have "97 \<le> (of_char key :: nat) \<and> (of_char key :: nat) \<le> 102"
    by (simp add: less_eq_char_def)
  then have "(of_char key :: nat) = of_char (CHR ''a'') \<or> (of_char key :: nat) = of_char (CHR ''b'')
     \<or> (of_char key :: nat) = of_char (CHR ''c'') \<or> (of_char key :: nat) = of_char (CHR ''d'')
     \<or> (of_char key :: nat) = of_char (CHR ''e'') \<or> (of_char key :: nat) = of_char (CHR ''f'')"
    by simp arith
  then show "key \<in> {CHR ''a'', CHR ''b'', CHR ''c'', CHR ''d'', CHR ''e'', CHR ''f''}"
    by (simp only: of_char_eq_iff) blast
next
  assume "key \<in> {CHR ''a'', CHR ''b'', CHR ''c'', CHR ''d'', CHR ''e'', CHR ''f''}"
  then show "CHR ''a'' \<le> key \<and> key \<le> CHR ''f''" by auto
qed

lemma char_range_AF:
  "(CHR ''A'' \<le> key \<and> key \<le> CHR ''F'') =
     (key \<in> {CHR ''A'', CHR ''B'', CHR ''C'', CHR ''D'', CHR ''E'', CHR ''F''})"
proof
  assume "CHR ''A'' \<le> key \<and> key \<le> CHR ''F''"
  then have "65 \<le> (of_char key :: nat) \<and> (of_char key :: nat) \<le> 70"
    by (simp add: less_eq_char_def)
  then have "(of_char key :: nat) = of_char (CHR ''A'') \<or> (of_char key :: nat) = of_char (CHR ''B'')
     \<or> (of_char key :: nat) = of_char (CHR ''C'') \<or> (of_char key :: nat) = of_char (CHR ''D'')
     \<or> (of_char key :: nat) = of_char (CHR ''E'') \<or> (of_char key :: nat) = of_char (CHR ''F'')"
    by simp arith
  then show "key \<in> {CHR ''A'', CHR ''B'', CHR ''C'', CHR ''D'', CHR ''E'', CHR ''F''}"
    by (simp only: of_char_eq_iff) blast
next
  assume "key \<in> {CHR ''A'', CHR ''B'', CHR ''C'', CHR ''D'', CHR ''E'', CHR ''F''}"
  then show "CHR ''A'' \<le> key \<and> key \<le> CHR ''F''" by auto
qed

text \<open>The bits of a key mask after \<^verbatim>\<open>collectKey\<close>, and the bit \<^verbatim>\<open>canPassDoor\<close> reads.\<close>

lemma collectKey_bit:
  "bit (collectKey ch km) n \<longleftrightarrow>
     bit km n \<or> (CHR ''a'' \<le> ch \<and> ch \<le> CHR ''f'' \<and> n = of_char ch - 97)"
  using keyBit_bound [of ch]
  by (auto simp: collectKey_def Let_def bit_simps not_less)

lemma canPassDoor_bit:
  assumes "CHR ''A'' \<le> door" "door \<le> CHR ''F''"
  shows "canPassDoor door km = bit km ((of_char door :: nat) - 65)"
proof -
  from assms have b: "(of_char door :: nat) - 65 \<le> 5" and c: "65 \<le> (of_char door :: nat)"
    by (simp_all add: less_eq_char_def)
  have "canPassDoor door km = ((signed_drop_bit (of_char door - 65) km AND 1) \<noteq> 0)"
    using assms c by (auto simp add: canPassDoor_def Let_def)
  also have "\<dots> = bit (signed_drop_bit (of_char door - 65) km) 0"
    by (simp add: and_one_eq bit_0 mod_2_eq_odd)
  also have "\<dots> = bit km (of_char door - 65)"
    using b by (simp add: bit_signed_drop_bit_iff)
  finally show ?thesis .
qed

section \<open>Key collection\<close>

text \<open>
  C9. Collecting a symbol into a key set that already went through the same collection
  changes nothing: \<open>collectKey ch (collectKey ch km) = collectKey ch km\<close> for every symbol
  and every key set. A symbol that is not one of the key letters \<open>'a'..'f'\<close> leaves the key
  set as it is.
\<close>

theorem collectKey_idempotent:
  "collectKey ch (collectKey ch km) = collectKey ch km \<and>
   (ch \<notin> {CHR ''a'', CHR ''b'', CHR ''c'', CHR ''d'', CHR ''e'', CHR ''f''}
      \<longrightarrow> collectKey ch km = km)"
proof
  show "collectKey ch (collectKey ch km) = collectKey ch km"
    by (rule bit_eqI) (auto simp: collectKey_bit)
  show "ch \<notin> {CHR ''a'', CHR ''b'', CHR ''c'', CHR ''d'', CHR ''e'', CHR ''f''} \<longrightarrow> collectKey ch km = km"
    unfolding char_range_af [symmetric] by (auto simp: collectKey_def)
qed

text \<open>At key \<open>'c'\<close> on the key set \<open>{a}\<close>, and at the non-key \<open>'A'\<close> on the key set \<open>{a, c}\<close>.\<close>

theorem collectKey_idempotent_witness:
  "collectKey (CHR ''c'') (collectKey (CHR ''c'') 1) = collectKey (CHR ''c'') 1 \<and>
   collectKey (CHR ''c'') 1 = 5 \<and>
   CHR ''A'' \<notin> {CHR ''a'', CHR ''b'', CHR ''c'', CHR ''d'', CHR ''e'', CHR ''f''} \<and>
   collectKey (CHR ''A'') 5 = 5"
  using collectKey_idempotent [of "CHR ''c''" 1] collectKey_idempotent [of "CHR ''A''" 5]
  by (simp add: collectKey_def)

section \<open>Doors\<close>

text \<open>
  The exit letter \<open>'E'\<close> is not a door of the dungeon, yet it lies inside the character
  range \<open>'A'..'F'\<close> that \<^verbatim>\<open>canPassDoor\<close> tests: with no keys, \<^verbatim>\<open>canPassDoor\<close> refuses it.
\<close>

theorem canPassDoor_exit_counterexample:
  "CHR ''E'' \<notin> {CHR ''A'', CHR ''B'', CHR ''C'', CHR ''D'', CHR ''F''} \<and>
   \<not> canPassDoor (CHR ''E'') 0"
  by (simp add: canPassDoor_def)

text \<open>A key set holds a key exactly when collecting that key adds nothing.\<close>

lemma collectKey_fixed:
  assumes "CHR ''a'' \<le> key" "key \<le> CHR ''f''"
  shows "(collectKey key km = km) = bit km (of_char key - 97)"
proof
  assume "collectKey key km = km"
  moreover have "bit (collectKey key km) (of_char key - 97)"
    using assms by (simp add: collectKey_bit)
  ultimately show "bit km (of_char key - 97)" by simp
next
  assume "bit km (of_char key - 97)"
  then show "collectKey key km = km"
    by (intro bit_eqI) (auto simp: collectKey_bit)
qed

lemma lower_of_door:
  assumes "CHR ''A'' \<le> door" "door \<le> CHR ''F''"
  shows "CHR ''a'' \<le> char_of (of_char door + 32 :: nat)"
    and "char_of (of_char door + 32 :: nat) \<le> CHR ''f''"
    and "(of_char (char_of (of_char door + 32 :: nat)) :: nat) - 97 = of_char door - 65"
proof -
  from assms have "65 \<le> (of_char door :: nat)" "(of_char door :: nat) \<le> 70"
    by (simp_all add: less_eq_char_def)
  then have "(of_char (char_of (of_char door + 32 :: nat)) :: nat) = of_char door + 32"
    by simp
  with \<open>65 \<le> of_char door\<close> \<open>of_char door \<le> 70\<close>
  show "CHR ''a'' \<le> char_of (of_char door + 32 :: nat)"
    and "char_of (of_char door + 32 :: nat) \<le> CHR ''f''"
    and "(of_char (char_of (of_char door + 32 :: nat)) :: nat) - 97 = of_char door - 65"
    by (simp_all add: less_eq_char_def)
qed

text \<open>
  A neighbour cell that holds \<open>'S'\<close> or \<open>'E'\<close> is entered with the key mask unchanged,
  whatever the keys: neither letter is a key, and the edge check exempts both.
\<close>

lemma successor_start_exit:
  assumes "isValidPosition dungeon (row s + fst d) (col s + snd d) = Some True"
    and "cellAt dungeon (row s + fst d) (col s + snd d) = Some ch"
    and "ch = CHR ''S'' \<or> ch = CHR ''E''"
  shows "successor dungeon s d =
           MoveTo \<lparr>row = row s + fst d, col = col s + snd d, keyMask = keyMask s\<rparr>"
  using assms by (auto simp: successor_def Let_def doorBlocks_def pickUp_def)

text \<open>
  C6, amended. \<^verbatim>\<open>canPassDoor\<close> returns true for every symbol outside the character range
  \<open>'A'..'F'\<close>. For a symbol inside the range, which holds the exit letter \<open>'E'\<close> beside the
  door letters, it returns true exactly when the key set has the bit of the matching
  lowercase key: bit \<open>symbol - 'A'\<close>, the bit that collecting the lowercase letter sets.
  The edge check of the key-aware search never blocks \<open>'S'\<close> or \<open>'E'\<close>, whatever the key set:
  the search enters a valid neighbour cell holding either letter.
\<close>

theorem canPassDoor_range:
  "(ch \<notin> {CHR ''A'', CHR ''B'', CHR ''C'', CHR ''D'', CHR ''E'', CHR ''F''} \<longrightarrow> canPassDoor ch km) \<and>
   (ch \<in> {CHR ''A'', CHR ''B'', CHR ''C'', CHR ''D'', CHR ''E'', CHR ''F''} \<longrightarrow>
      canPassDoor ch km = bit km (of_char ch - of_char (CHR ''A'')) \<and>
      (canPassDoor ch km \<longleftrightarrow> collectKey (char_of (of_char ch + 32 :: nat)) km = km)) \<and>
   \<not> doorBlocks (CHR ''S'') km \<and> \<not> doorBlocks (CHR ''E'') km \<and>
   (isValidPosition dungeon (row s + fst d) (col s + snd d) = Some True \<and>
    cellAt dungeon (row s + fst d) (col s + snd d) = Some ch \<and> ch \<in> {CHR ''S'', CHR ''E''} \<longrightarrow>
      successor dungeon s d =
        MoveTo \<lparr>row = row s + fst d, col = col s + snd d, keyMask = keyMask s\<rparr>)"
proof (intro conjI impI)
  assume "ch \<notin> {CHR ''A'', CHR ''B'', CHR ''C'', CHR ''D'', CHR ''E'', CHR ''F''}"
  then have "\<not> (CHR ''A'' \<le> ch \<and> ch \<le> CHR ''F'')"
    unfolding char_range_AF .
  then show "canPassDoor ch km"
    by (auto simp: canPassDoor_def)
next
  assume "ch \<in> {CHR ''A'', CHR ''B'', CHR ''C'', CHR ''D'', CHR ''E'', CHR ''F''}"
  then have rng: "CHR ''A'' \<le> ch" "ch \<le> CHR ''F''"
    by (simp_all only: char_range_AF [symmetric])
  from canPassDoor_bit [OF rng]
  show bit: "canPassDoor ch km = bit km (of_char ch - of_char (CHR ''A''))"
    by simp
  show "canPassDoor ch km \<longleftrightarrow> collectKey (char_of (of_char ch + 32 :: nat)) km = km"
    using canPassDoor_bit [OF rng, of km] collectKey_fixed [OF lower_of_door(1,2) [OF rng], of km]
      lower_of_door(3) [OF rng]
    by simp
next
  show "\<not> doorBlocks (CHR ''S'') km" by (simp add: doorBlocks_def)
  show "\<not> doorBlocks (CHR ''E'') km" by (simp add: doorBlocks_def)
next
  assume "isValidPosition dungeon (row s + fst d) (col s + snd d) = Some True \<and>
    cellAt dungeon (row s + fst d) (col s + snd d) = Some ch \<and> ch \<in> {CHR ''S'', CHR ''E''}"
  then show "successor dungeon s d =
      MoveTo \<lparr>row = row s + fst d, col = col s + snd d, keyMask = keyMask s\<rparr>"
    by (intro successor_start_exit) auto
qed

text \<open>
  At the wall \<open>'#'\<close>, at door \<open>'B'\<close> with the key sets \<open>{b}\<close> and \<open>{a, c}\<close>, and at the step
  from the start onto the exit of the row \<open>SE\<close>.
\<close>

theorem canPassDoor_range_witness:
  "CHR ''#'' \<notin> {CHR ''A'', CHR ''B'', CHR ''C'', CHR ''D'', CHR ''E'', CHR ''F''} \<and>
   canPassDoor (CHR ''#'') 0 \<and>
   CHR ''B'' \<in> {CHR ''A'', CHR ''B'', CHR ''C'', CHR ''D'', CHR ''E'', CHR ''F''} \<and>
   canPassDoor (CHR ''B'') 2 \<and> bit (2 :: keymask) 1 \<and> collectKey (CHR ''b'') 2 = 2 \<and>
   \<not> canPassDoor (CHR ''B'') 5 \<and> \<not> bit (5 :: keymask) 1 \<and> collectKey (CHR ''b'') 5 \<noteq> 5 \<and>
   isValidPosition [''SE''] 0 1 = Some True \<and> cellAt [''SE''] 0 1 = Some (CHR ''E'') \<and>
   successor [''SE''] \<lparr>row = 0, col = 0, keyMask = 0\<rparr> (0, 1) =
     MoveTo \<lparr>row = 0, col = 1, keyMask = 0\<rparr>"
proof -
  have rd: "cellAt [''SE''] 0 1 = Some (CHR ''E'')"
    by (simp add: cellAt_def)
  then have ok: "isValidPosition [''SE''] 0 1 = Some True"
    by (simp add: isValidPosition_def outOfBounds_def)
  from canPassDoor_range [of "CHR ''#''" 0] canPassDoor_range [of "CHR ''B''" 2]
    canPassDoor_range [of "CHR ''B''" 5]
    canPassDoor_range [of "CHR ''E''" 0 "[''SE'']" "\<lparr>row = 0, col = 0, keyMask = 0\<rparr>" "(0, 1)"]
    rd ok
  show ?thesis by (simp add: collectKey_def)
qed

section \<open>Openness for the plain search\<close>

lemma dungeon_row0:
  "0 < length dungeon \<Longrightarrow>
     (case dungeon of [] \<Rightarrow> True | line0 # _ \<Rightarrow> int (length line0) \<le> j) =
     (int (length (dungeon ! 0)) \<le> j)"
  by (cases dungeon) simp_all

text \<open>
  C7. For a cell inside the bounds that \<^verbatim>\<open>isPassable\<close> checks (the row inside the grid,
  the column inside row 0) and inside its own row, \<^verbatim>\<open>isPassable\<close> returns true for every
  symbol except the wall \<open>'#'\<close> and the door letters \<open>A, B, C, D, F\<close>. In particular the
  exit \<open>'E'\<close> and the key letters \<open>'a'..'f'\<close> are open.
\<close>

theorem isPassable_open:
  assumes "0 \<le> i" "i < int (length dungeon)" "0 \<le> j" "j < int (length (dungeon ! 0))"
    and "j < int (length (dungeon ! nat i))"
  shows "isPassable dungeon i j =
           Some (dungeon ! nat i ! nat j \<notin>
                   {CHR ''#'', CHR ''A'', CHR ''B'', CHR ''C'', CHR ''D'', CHR ''F''}) \<and>
         (dungeon ! nat i ! nat j \<in>
            {CHR ''E'', CHR ''a'', CHR ''b'', CHR ''c'', CHR ''d'', CHR ''e'', CHR ''f''}
          \<longrightarrow> isPassable dungeon i j = Some True)"
proof -
  let ?cell = "dungeon ! nat i ! nat j"
  from assms have "0 < length dungeon" by auto
  with assms have inb: "\<not> outOfBounds dungeon i j"
    by (simp add: outOfBounds_def dungeon_row0)
  from assms have rd: "cellAt dungeon i j = Some ?cell"
    by (auto simp add: cellAt_def Let_def)
  have door: "(CHR ''A'' \<le> ?cell \<and> ?cell \<le> CHR ''F'' \<and> ?cell \<noteq> CHR ''E'') =
      (?cell \<in> {CHR ''A'', CHR ''B'', CHR ''C'', CHR ''D'', CHR ''F''})"
  proof -
    have "(CHR ''A'' \<le> ?cell \<and> ?cell \<le> CHR ''F'' \<and> ?cell \<noteq> CHR ''E'') =
      ((CHR ''A'' \<le> ?cell \<and> ?cell \<le> CHR ''F'') \<and> ?cell \<noteq> CHR ''E'')" by simp
    also have "\<dots> = (?cell \<in> {CHR ''A'', CHR ''B'', CHR ''C'', CHR ''D'', CHR ''F''})"
      unfolding char_range_AF by auto
    finally show ?thesis .
  qed
  have "isPassable dungeon i j =
      Some (?cell \<noteq> CHR ''#'' \<and> \<not> (CHR ''A'' \<le> ?cell \<and> ?cell \<le> CHR ''F'' \<and> ?cell \<noteq> CHR ''E''))"
    using inb rd by (simp add: isPassable_def)
  then have main: "isPassable dungeon i j =
      Some (?cell \<notin> {CHR ''#'', CHR ''A'', CHR ''B'', CHR ''C'', CHR ''D'', CHR ''F''})"
    by (simp only: door) simp
  moreover have "?cell \<in> {CHR ''E'', CHR ''a'', CHR ''b'', CHR ''c'', CHR ''d'', CHR ''e'', CHR ''f''}
      \<longrightarrow> isPassable dungeon i j = Some True"
    unfolding main by auto
  ultimately show ?thesis by simp
qed

text \<open>On a two-row grid: exit, key and floor are open, wall and door \<open>'A'\<close> are not.\<close>

theorem isPassable_open_witness:
  "isPassable [''#a#'', ''EA ''] 1 0 = Some True \<and> isPassable [''#a#'', ''EA ''] 0 1 = Some True \<and>
   isPassable [''#a#'', ''EA ''] 1 1 = Some False \<and> isPassable [''#a#'', ''EA ''] 0 0 = Some False \<and>
   isPassable [''#a#'', ''EA ''] 1 2 = Some True"
  using isPassable_open [of 1 "[''#a#'', ''EA '']" 0] isPassable_open [of 0 "[''#a#'', ''EA '']" 1]
    isPassable_open [of 1 "[''#a#'', ''EA '']" 1] isPassable_open [of 0 "[''#a#'', ''EA '']" 0]
    isPassable_open [of 1 "[''#a#'', ''EA '']" 2]
  by simp

section \<open>Grids without start or exit\<close>

text \<open>\<^verbatim>\<open>findPosition\<close> returns the sentinel exactly when no row holds the character.\<close>

lemma findInRow_None: "(findInRow line target k = None) = (target \<notin> set line)"
  by (induction line arbitrary: k) auto

lemma findInRow_Some: "findInRow line target k = Some j \<Longrightarrow> target \<in> set line"
  using findInRow_None [of line target k] by auto

lemma findFromRow_absent:
  "(r (findFromRow dungeon target k) = -1) = (\<forall>line \<in> set dungeon. target \<notin> set line)"
  by (induction dungeon arbitrary: k) (auto simp: findInRow_None split: option.splits dest: findInRow_Some)

lemma findFromRow_sentinel:
  "r (findFromRow dungeon target k) = -1 \<Longrightarrow> findFromRow dungeon target k = \<lparr>r = -1, c = -1\<rparr>"
  by (induction dungeon arbitrary: k) (auto split: option.splits)

text \<open>
  C8. On every grid that lacks the symbol \<open>'S'\<close> or lacks the symbol \<open>'E'\<close>,
  \<^verbatim>\<open>findPosition\<close> yields the sentinel \<^verbatim>\<open>Cell(-1, -1)\<close> for the missing symbol, and both
  \<^verbatim>\<open>bfsPath\<close> and \<^verbatim>\<open>bfsPathKeys\<close> return the empty sequence as a normal result.
\<close>

theorem missing_start_or_exit:
  assumes "(\<forall>line \<in> set dungeon. CHR ''S'' \<notin> set line) \<or>
           (\<forall>line \<in> set dungeon. CHR ''E'' \<notin> set line)"
  shows "(findPosition dungeon (CHR ''S'') = \<lparr>r = -1, c = -1\<rparr> \<or>
          findPosition dungeon (CHR ''E'') = \<lparr>r = -1, c = -1\<rparr>) \<and>
         bfsPath dungeon = Some [] \<and> bfsPathKeys dungeon = Some []"
proof -
  from assms
  have miss: "r (findPosition dungeon (CHR ''S'')) = -1 \<or> r (findPosition dungeon (CHR ''E'')) = -1"
    by (simp add: findPosition_def findFromRow_absent)
  then have "findPosition dungeon (CHR ''S'') = \<lparr>r = -1, c = -1\<rparr> \<or>
             findPosition dungeon (CHR ''E'') = \<lparr>r = -1, c = -1\<rparr>"
    unfolding findPosition_def by (blast dest: findFromRow_sentinel)
  moreover from miss have "bfsPath dungeon = Some []"
    by (simp add: bfsPath_def Let_def)
  moreover from miss have "bfsPathKeys dungeon = Some []"
    by (simp add: bfsPathKeys_def Let_def)
  ultimately show ?thesis by simp
qed

text \<open>A grid with a start and no exit, and a grid with an exit and no start.\<close>

theorem missing_start_or_exit_witness:
  "findPosition [''S #'', ''a A''] (CHR ''E'') = \<lparr>r = -1, c = -1\<rparr> \<and>
   bfsPath [''S #'', ''a A''] = Some [] \<and> bfsPathKeys [''S #'', ''a A''] = Some [] \<and>
   findPosition [''# E''] (CHR ''S'') = \<lparr>r = -1, c = -1\<rparr> \<and>
   bfsPath [''# E''] = Some [] \<and> bfsPathKeys [''# E''] = Some []"
  using missing_start_or_exit [of "[''S #'', ''a A'']"] missing_start_or_exit [of "[''# E'']"]
  by (simp add: findPosition_def)

section \<open>The key set along the key-aware search\<close>

text \<open>
  A move reads the character of the cell it enters and passes the old key mask through
  \<open>pickUp\<close>: every bit that was set stays set, and a key letter sets its bit.
\<close>

lemma pickUp_bit:
  "bit (pickUp ch km) n \<longleftrightarrow>
     bit km n \<or> (CHR ''a'' \<le> ch \<and> ch \<le> CHR ''f'' \<and> n = of_char ch - 97)"
  by (auto simp: pickUp_def collectKey_bit)

lemma successor_MoveTo:
  assumes "successor dungeon s d = MoveTo t"
  shows "\<exists>ch. cellAt dungeon (row t) (col t) = Some ch \<and> keyMask t = pickUp ch (keyMask s)"
  using assms
  by (auto simp: successor_def Let_def split: option.splits bool.splits if_splits)

lemma successor_keeps_bits:
  assumes "successor dungeon s d = MoveTo t" "bit (keyMask s) n"
  shows "bit (keyMask t) n"
  using successor_MoveTo [OF assms(1)] assms(2) by (auto simp: pickUp_bit)

lemma successor_collects:
  assumes "successor dungeon s d = MoveTo t" "cellAt dungeon (row t) (col t) = Some k"
    "CHR ''a'' \<le> k" "k \<le> CHR ''f''"
  shows "bit (keyMask t) (of_char k - of_char (CHR ''a''))"
  using successor_MoveTo [OF assms(1)] assms(2-) by (auto simp: pickUp_bit)

text \<open>Every state the inner loop marks as new is a \<open>successor\<close> of the dequeued state.\<close>

lemma exploreDirections_new:
  "exploreDirections dungeon s ds (q, v, p) = Some (q', v', p') \<Longrightarrow> t \<in> v' \<Longrightarrow> t \<notin> v \<Longrightarrow>
     \<exists>d \<in> set ds. successor dungeon s d = MoveTo t"
proof (induction ds arbitrary: q v p)
  case Nil
  then show ?case by simp
next
  case (Cons d ds)
  show ?case
  proof (cases "successor dungeon s d")
    case UndefinedRead
    with Cons.prems show ?thesis by simp
  next
    case NoMove
    with Cons.prems Cons.IH [of q v p] show ?thesis by simp
  next
    case (MoveTo u)
    show ?thesis
    proof (cases "u \<in> v")
      case True
      with MoveTo Cons.prems Cons.IH [of q v p] show ?thesis by simp
    next
      case False
      show ?thesis
      proof (cases "t = u")
        case True
        with MoveTo show ?thesis by simp
      next
        case neq: False
        from False MoveTo Cons.prems(1)
        have "exploreDirections dungeon s ds (q @ [u], insert u v, p(u \<mapsto> s)) = Some (q', v', p')"
          by simp
        from Cons.IH [OF this Cons.prems(2)] neq Cons.prems(3)
        show ?thesis by simp
      qed
    qed
  qed
qed

text \<open>Along a walk the bits of the key mask are kept from each state to every later one.\<close>

lemma walk_step:
  "walk dungeon ss \<Longrightarrow> Suc i < length ss \<Longrightarrow>
     \<exists>d \<in> set DIRECTIONS. successor dungeon (ss ! i) d = MoveTo (ss ! Suc i)"
proof (induction dungeon ss arbitrary: i rule: walk.induct)
  case (3 dungeon s t rest)
  then show ?case by (cases i) auto
qed simp_all

lemma walk_keeps_bits:
  assumes "walk dungeon ss" "j < length ss" "i \<le> j" "bit (keyMask (ss ! i)) n"
  shows "bit (keyMask (ss ! j)) n"
  using assms(3,2)
proof (induction j rule: dec_induct)
  case base
  from assms(4) show ?case .
next
  case (step m)
  then have "bit (keyMask (ss ! m)) n" by simp
  moreover from walk_step [OF assms(1) step.prems]
  obtain d where "successor dungeon (ss ! m) d = MoveTo (ss ! Suc m)" by blast
  ultimately show ?case by (blast intro: successor_keeps_bits)
qed

text \<open>
  C10. Along every transition of the key-aware search the key set only grows. A bit set
  in the key mask of a state is set in the key mask of its successor, hence in every
  state the inner loop enqueues for a dequeued state, and in every later state of a walk.
  A key letter on a cell that a walk enters sets its bit there, so the key mask of every
  state reached holds all keys collected on the way to it.
\<close>

theorem keyMask_only_grows:
  "(successor dungeon s d = MoveTo t \<and> bit (keyMask s) n \<longrightarrow> bit (keyMask t) n) \<and>
   (exploreDirections dungeon s DIRECTIONS (q, v, p) = Some (q', v', p') \<and> t \<in> v' - v \<and>
      bit (keyMask s) n \<longrightarrow> bit (keyMask t) n) \<and>
   (walk dungeon ss \<and> i \<le> j \<and> j < length ss \<and> bit (keyMask (ss ! i)) n
      \<longrightarrow> bit (keyMask (ss ! j)) n) \<and>
   (walk dungeon ss \<and> 0 < i \<and> i \<le> j \<and> j < length ss \<and>
      cellAt dungeon (row (ss ! i)) (col (ss ! i)) = Some k \<and> CHR ''a'' \<le> k \<and> k \<le> CHR ''f''
      \<longrightarrow> bit (keyMask (ss ! j)) (of_char k - of_char (CHR ''a'')))"
proof (intro conjI impI; elim conjE)
  assume "successor dungeon s d = MoveTo t" "bit (keyMask s) n"
  then show "bit (keyMask t) n" by (rule successor_keeps_bits)
next
  assume "exploreDirections dungeon s DIRECTIONS (q, v, p) = Some (q', v', p')" "t \<in> v' - v"
    and b: "bit (keyMask s) n"
  then obtain d' where "successor dungeon s d' = MoveTo t"
    using exploreDirections_new [of dungeon s DIRECTIONS q v p q' v' p' t] by blast
  from successor_keeps_bits [OF this b] show "bit (keyMask t) n" .
next
  assume "walk dungeon ss" "i \<le> j" "j < length ss" "bit (keyMask (ss ! i)) n"
  then show "bit (keyMask (ss ! j)) n" by (blast intro: walk_keeps_bits)
next
  assume w: "walk dungeon ss" and i: "0 < i" "i \<le> j" and j: "j < length ss"
    and k: "cellAt dungeon (row (ss ! i)) (col (ss ! i)) = Some k" "CHR ''a'' \<le> k" "k \<le> CHR ''f''"
  from i obtain m where m: "i = Suc m" by (cases i) auto
  with i j have "Suc m < length ss" by simp
  from walk_step [OF w this] m
  obtain d' where "successor dungeon (ss ! m) d' = MoveTo (ss ! i)" by blast
  from successor_collects [OF this k]
  have "bit (keyMask (ss ! i)) (of_char k - of_char (CHR ''a''))" .
  from walk_keeps_bits [OF w j i(2) this]
  show "bit (keyMask (ss ! j)) (of_char k - of_char (CHR ''a''))" .
qed

text \<open>
  On the row \<open>SaAE\<close>: the move from the key cell onto the door, the states enqueued from
  the key cell, and the walk from the start to the exit, which holds key \<open>a\<close> at its end.
\<close>

theorem keyMask_only_grows_witness:
  "successor [''SaAE''] \<lparr>row = 0, col = 1, keyMask = 1\<rparr> (0, 1) = MoveTo \<lparr>row = 0, col = 2, keyMask = 1\<rparr> \<and>
   bit (1 :: keymask) 0 \<and>
   exploreDirections [''SaAE''] \<lparr>row = 0, col = 1, keyMask = 1\<rparr> DIRECTIONS
      ([], {\<lparr>row = 0, col = 0, keyMask = 0\<rparr>, \<lparr>row = 0, col = 1, keyMask = 1\<rparr>}, Map.empty) =
     Some ([\<lparr>row = 0, col = 0, keyMask = 1\<rparr>, \<lparr>row = 0, col = 2, keyMask = 1\<rparr>],
           {\<lparr>row = 0, col = 2, keyMask = 1\<rparr>, \<lparr>row = 0, col = 0, keyMask = 1\<rparr>,
            \<lparr>row = 0, col = 0, keyMask = 0\<rparr>, \<lparr>row = 0, col = 1, keyMask = 1\<rparr>},
           [\<lparr>row = 0, col = 0, keyMask = 1\<rparr> \<mapsto> \<lparr>row = 0, col = 1, keyMask = 1\<rparr>,
            \<lparr>row = 0, col = 2, keyMask = 1\<rparr> \<mapsto> \<lparr>row = 0, col = 1, keyMask = 1\<rparr>]) \<and>
   walk [''SaAE''] [\<lparr>row = 0, col = 0, keyMask = 0\<rparr>, \<lparr>row = 0, col = 1, keyMask = 1\<rparr>,
                    \<lparr>row = 0, col = 2, keyMask = 1\<rparr>, \<lparr>row = 0, col = 3, keyMask = 1\<rparr>] \<and>
   cellAt [''SaAE''] 0 1 = Some (CHR ''a'') \<and>
   bit (keyMask ([\<lparr>row = 0, col = 0, keyMask = 0\<rparr>, \<lparr>row = 0, col = 1, keyMask = 1\<rparr>,
                  \<lparr>row = 0, col = 2, keyMask = 1\<rparr>, \<lparr>row = 0, col = 3, keyMask = (1 :: keymask)\<rparr>] ! 3))
       (of_char (CHR ''a'') - of_char (CHR ''a''))"
proof -
  let ?g = "[''SaAE'']"
  let ?s = "\<lparr>row = 0, col = 1, keyMask = 1 :: keymask\<rparr>"
  let ?t = "\<lparr>row = 0, col = 2, keyMask = 1 :: keymask\<rparr>"
  let ?ss = "[\<lparr>row = 0, col = 0, keyMask = 0 :: keymask\<rparr>, ?s, ?t, \<lparr>row = 0, col = 3, keyMask = 1\<rparr>]"
  let ?v = "{\<lparr>row = 0, col = 0, keyMask = 0 :: keymask\<rparr>, ?s}"
  let ?q' = "[\<lparr>row = 0, col = 0, keyMask = 1 :: keymask\<rparr>, ?t]"
  let ?v' = "{?t, \<lparr>row = 0, col = 0, keyMask = 1 :: keymask\<rparr>, \<lparr>row = 0, col = 0, keyMask = 0\<rparr>, ?s}"
  let ?p' = "[\<lparr>row = 0, col = 0, keyMask = 1 :: keymask\<rparr> \<mapsto> ?s, ?t \<mapsto> ?s]"
  have rd: "cellAt ?g 0 0 = Some (CHR ''S'')" "cellAt ?g 0 1 = Some (CHR ''a'')"
    "cellAt ?g 0 2 = Some (CHR ''A'')" "cellAt ?g 0 3 = Some (CHR ''E'')"
    by (simp_all add: cellAt_def)
  have ob: "\<not> outOfBounds ?g 0 0" "\<not> outOfBounds ?g 0 1" "\<not> outOfBounds ?g 0 2" "\<not> outOfBounds ?g 0 3"
    "outOfBounds ?g (-1) 1" "outOfBounds ?g 1 1"
    by (simp_all add: outOfBounds_def)
  have mv: "successor ?g ?s (0, 1) = MoveTo ?t"
    "successor ?g ?s (0, -1) = MoveTo \<lparr>row = 0, col = 0, keyMask = 1\<rparr>"
    "successor ?g ?s (-1, 0) = NoMove" "successor ?g ?s (1, 0) = NoMove"
    "successor ?g \<lparr>row = 0, col = 0, keyMask = 0\<rparr> (0, 1) = MoveTo ?s"
    "successor ?g ?t (0, 1) = MoveTo \<lparr>row = 0, col = 3, keyMask = 1\<rparr>"
    by (simp_all add: successor_def isValidPosition_def rd ob doorBlocks_def pickUp_def
        canPassDoor_def collectKey_def)
  have ex: "exploreDirections ?g ?s DIRECTIONS ([], ?v, Map.empty) = Some (?q', ?v', ?p')"
    by (simp add: DIRECTIONS_def mv)
  have wk: "walk ?g ?ss"
    by (simp add: DIRECTIONS_def mv)
  from keyMask_only_grows [where dungeon = ?g and s = ?s and d = "(0, 1)" and t = ?t and n = 0
      and q = "[]" and v = ?v and p = Map.empty and q' = ?q' and v' = ?v' and p' = ?p'
      and ss = ?ss and i = 1 and j = 3 and k = "CHR ''a''"]
    mv ex wk rd
  show ?thesis by simp
qed

section \<open>The goal test of the key-aware search on concrete grids\<close>

text \<open>
  C1. The claim: \<^verbatim>\<open>bfsPathKeys\<close> declares success exactly when the dequeued state stands on
  the exit that \<^verbatim>\<open>findPosition\<close> located. The code compares with the literal cell (5, 8).
  On the row \<open>SE\<close> the exit is located at (0, 1); the state on that cell does not pass the
  goal test, and the search ends with the empty path although the exit is next to the start.
\<close>

theorem bfsPathKeys_goal_is_literal:
  "findPosition [''SE''] (CHR ''E'') = \<lparr>r = 0, c = 1\<rparr> \<and>
   \<not> atGoal (findPosition [''SE''] (CHR ''E'')) \<lparr>row = 0, col = 1, keyMask = 0\<rparr> \<and>
   bfsPathKeys [''SE''] = Some []"
  by code_simp

text \<open>
  C2. The claim: on the row \<open>SaAE\<close> \<^verbatim>\<open>bfsPath\<close> returns the empty sequence and
  \<^verbatim>\<open>bfsPathKeys\<close> the four cells from (0, 0) to (0, 3). The code returns the empty
  sequence from both: the door stops the plain search, and the key-aware search walks
  through the door to the exit but never meets the literal goal cell (5, 8).
\<close>

theorem key_door_row_example:
  "bfsPath [''SaAE''] = Some [] \<and> bfsPathKeys [''SaAE''] = Some []"
  by code_simp

text \<open>
  C3. The claim: on a grid without doors and with a reachable exit both searches return
  paths of the same length. On the door-free row \<open>S E\<close> the plain search returns three
  cells and the key-aware search none.
\<close>

theorem door_free_lengths_differ:
  "bfsPath [''S E''] = Some [\<lparr>r = 0, c = 0\<rparr>, \<lparr>r = 0, c = 1\<rparr>, \<lparr>r = 0, c = 2\<rparr>] \<and>
   bfsPathKeys [''S E''] = Some []"
  by code_simp

text \<open>
  C4. The claim: a returned path that is not empty ends at the located exit. On a grid
  of six rows and nine columns with the exit at (0, 0), walled in, and the start at
  (5, 7), \<^verbatim>\<open>bfsPathKeys\<close> returns a path that ends at (5, 8), a floor cell.
\<close>

theorem bfsPathKeys_path_misses_exit:
  "findPosition [''E########'', ''#########'', ''#########'', ''#########'', ''#########'',
                 ''#######S ''] (CHR ''E'') = \<lparr>r = 0, c = 0\<rparr> \<and>
   bfsPathKeys [''E########'', ''#########'', ''#########'', ''#########'', ''#########'',
                ''#######S ''] = Some [\<lparr>r = 5, c = 7\<rparr>, \<lparr>r = 5, c = 8\<rparr>]"
  by code_simp

text \<open>
  C5. The claim: a returned path has the least number of steps from start to exit.
  With the exit at (5, 5) next to the start at (5, 6), the plain search returns the
  one-step path, and \<^verbatim>\<open>bfsPathKeys\<close> returns a two-step path away from the exit, to (5, 8).
\<close>

theorem bfsPathKeys_path_not_shortest:
  "findPosition [''#########'', ''#########'', ''#########'', ''#########'', ''#########'',
                 ''#####ES  ''] (CHR ''E'') = \<lparr>r = 5, c = 5\<rparr> \<and>
   bfsPath [''#########'', ''#########'', ''#########'', ''#########'', ''#########'',
            ''#####ES  ''] = Some [\<lparr>r = 5, c = 6\<rparr>, \<lparr>r = 5, c = 5\<rparr>] \<and>
   bfsPathKeys [''#########'', ''#########'', ''#########'', ''#########'', ''#########'',
                ''#####ES  ''] = Some [\<lparr>r = 5, c = 6\<rparr>, \<lparr>r = 5, c = 7\<rparr>, \<lparr>r = 5, c = 8\<rparr>]"
  by code_simp

end
